theory Spec2Isabelle
  imports Main "HOL-Library.Sublist" "HOL-Library.Word"
begin

section \<open>Data model\<close>

text \<open>
  Errors. \<open>InvalidRequestLine\<close> is the value built by
  \<^verbatim>\<open>fmt.Errorf("invalid request line")\<close> in \<^verbatim>\<open>ReadHTTPFile\<close>; every other error of the
  program is handed over unchanged from a library call (\<^verbatim>\<open>os\<close>, \<^verbatim>\<open>bufio\<close>, \<^verbatim>\<open>net/http\<close>,
  \<^verbatim>\<open>io\<close>) and is kept as \<open>LibError\<close> with its message.
\<close>

datatype error = InvalidRequestLine | LibError string

fun error_string :: "error \<Rightarrow> string" where
  "error_string InvalidRequestLine = ''invalid request line''"
| "error_string (LibError msg) = msg"

text \<open>\<^verbatim>\<open>type RequestData struct\<close>; the Go map \<^verbatim>\<open>map[string]string\<close> is a partial function.\<close>

record RequestData =
  Method :: string
  URL :: string
  Headers :: "string \<rightharpoonup> string"
  Body :: string

text \<open>
  What \<^verbatim>\<open>bufio.NewScanner(file)\<close> will deliver: the lines \<^verbatim>\<open>scanner.Text()\<close> yields while
  \<^verbatim>\<open>scanner.Scan()\<close> is true, in order, and the value of \<^verbatim>\<open>scanner.Err()\<close> once
  \<^verbatim>\<open>Scan\<close> has returned false (\<open>None\<close> at a clean end of file).
\<close>

record Scanner =
  scan_lines :: "string list"
  scan_err :: "string option"

section \<open>String helpers of the Go library\<close>

text \<open>\<^verbatim>\<open>strings.Index(s, sep)\<close>: position of the first occurrence of \<open>sep\<close> in \<open>s\<close>.\<close>

fun Index :: "string \<Rightarrow> string \<Rightarrow> nat option" where
  "Index [] sep = (if sep = [] then Some 0 else None)"
| "Index (c # cs) sep =
     (if prefix sep (c # cs) then Some 0 else map_option Suc (Index cs sep))"

text \<open>
  \<^verbatim>\<open>strings.SplitN(s, sep, 2)\<close> for a non-empty separator: cut at the first occurrence of
  \<open>sep\<close>, or the one-element list \<open>[s]\<close> when there is none.
\<close>

definition SplitN_2 :: "string \<Rightarrow> string \<Rightarrow> string list" where
  "SplitN_2 s sep =
     (case Index s sep of
        None \<Rightarrow> [s]
      | Some m \<Rightarrow> [take m s, drop (m + length sep) s])"

text \<open>\<^verbatim>\<open>strings.Join(elems, sep)\<close>.\<close>

fun Join :: "string list \<Rightarrow> string \<Rightarrow> string" where
  "Join [] sep = []"
| "Join [a] sep = a"
| "Join (a # b # rest) sep = a @ sep @ Join (b # rest) sep"

section \<open>ReadHTTPFile\<close>

text \<open>
  The request line (source lines 43 to 50). The result carries the lines the scanner has
  left. With no first line the \<^verbatim>\<open>if scanner.Scan()\<close> body is not entered and both fields
  keep their zero value.
\<close>

fun read_request_line :: "string list \<Rightarrow> error + (string \<times> string \<times> string list)" where
  "read_request_line [] = Inr ([], [], [])"
| "read_request_line (line # rest) =
     (let parts = SplitN_2 line '' '' in
      if length parts \<noteq> 2 then Inl InvalidRequestLine
      else Inr (parts ! 0, parts ! 1, rest))"

text \<open>
  The header loop (source lines 53 to 63): \<^verbatim>\<open>break\<close> at the empty line, \<^verbatim>\<open>continue\<close> on
  a line that does not split in two, otherwise \<^verbatim>\<open>reqData.Headers[parts[0]] = parts[1]\<close>.
\<close>

fun read_headers ::
  "string list \<Rightarrow> (string \<rightharpoonup> string) \<Rightarrow> (string \<rightharpoonup> string) \<times> string list" where
  "read_headers [] hdrs = (hdrs, [])"
| "read_headers (line # rest) hdrs =
     (if line = [] then (hdrs, rest)
      else let parts = SplitN_2 line '': '' in
        if length parts \<noteq> 2 then read_headers rest hdrs
        else read_headers rest (hdrs(parts ! 0 \<mapsto> parts ! 1)))"

text \<open>The body loop (source lines 66 to 69): \<^verbatim>\<open>bodyLines = append(bodyLines, ...)\<close>.\<close>

fun read_body :: "string list \<Rightarrow> string list \<Rightarrow> string list" where
  "read_body [] bodyLines = bodyLines"
| "read_body (line # rest) bodyLines = read_body rest (bodyLines @ [line])"

text \<open>
  \<^verbatim>\<open>ReadHTTPFile(filePath)\<close>. \<open>os_Open\<close> is the file system seen through \<^verbatim>\<open>os.Open\<close>
  followed by \<^verbatim>\<open>bufio.NewScanner\<close>: the error message, or the scanner over the file.
\<close>

definition ReadHTTPFile :: "(string \<Rightarrow> string + Scanner) \<Rightarrow> string \<Rightarrow> error + RequestData" where
  "ReadHTTPFile os_Open filePath =
     (case os_Open filePath of
        Inl err \<Rightarrow> Inl (LibError err)
      | Inr scanner \<Rightarrow>
          (case read_request_line (scan_lines scanner) of
             Inl err \<Rightarrow> Inl err
           | Inr (method, url, rest) \<Rightarrow>
               (case read_headers rest Map.empty of
                  (hdrs, rest') \<Rightarrow>
                    (let bodyLines = read_body rest' [] in
                     case scan_err scanner of
                       Some err \<Rightarrow> Inl (LibError err)
                     | None \<Rightarrow>
                         Inr \<lparr>Method = method, URL = url, Headers = hdrs,
                              Body = Join bodyLines ''\<newline>''\<rparr>))))"

section \<open>The environment of one run\<close>

text \<open>
  \<^verbatim>\<open>*http.Request\<close> as far as the program fills it: method, URL, entity body and the header
  of type \<^verbatim>\<open>map[string][]string\<close>.
\<close>

record Request =
  rq_method :: string
  rq_url :: string
  rq_body :: string
  rq_header :: "string \<rightharpoonup> string list"

text \<open>
  \<^verbatim>\<open>*http.Response\<close> as far as the program reads it. \<open>ReadAll_Body\<close> is what
  \<^verbatim>\<open>io.ReadAll(response.Body)\<close> returns: the error message, or the drained body.
\<close>

record Response =
  Status :: string
  StatusCode :: int
  ReadAll_Body :: "string + string"

text \<open>
  The pure functions of \<^verbatim>\<open>net/http\<close> the program calls: \<^verbatim>\<open>http.NewRequest(method, url, body)\<close>
  (the error message, or the fresh request) and the key normalisation applied by
  \<^verbatim>\<open>Header.Set\<close>.
\<close>

record http_lib =
  http_NewRequest :: "string \<Rightarrow> string \<Rightarrow> string \<Rightarrow> string + Request"
  CanonicalMIMEHeaderKey :: "string \<Rightarrow> string"

text \<open>
  What the outside world answers during one iteration of the retry loop: the order in which
  each \<^verbatim>\<open>range reqData.Headers\<close> enumerates the keys, the outcome of \<^verbatim>\<open>client.Do\<close>, the value
  of \<^verbatim>\<open>time.Now().Unix()\<close>, whether \<^verbatim>\<open>os.Create\<close> fails, and whether one
  \<^verbatim>\<open>file.WriteString\<close> call fails: \<open>Some (k, n, msg)\<close> makes call number \<open>k\<close> (from 0) write
  only \<open>n\<close> bytes and return \<open>msg\<close>.
\<close>

record iter_env =
  send_range :: "string list"
  client_Do :: "Request \<Rightarrow> string + Response"
  time_Now_Unix :: int
  os_Create_err :: "string option"
  report_range :: "string list"
  write_fault :: "(nat \<times> nat \<times> string) option"

text \<open>
  The observable state: the files on disk and, in order, what the program did to the
  outside (lines printed, calls of \<^verbatim>\<open>client.Do\<close>, files created, sleeps in nanoseconds).
\<close>

datatype event = EvPrint string | EvDo Request | EvCreate string | EvSleep int

record world =
  fs :: "string \<rightharpoonup> string"
  trace :: "event list"

definition Println :: "string \<Rightarrow> world \<Rightarrow> world" where
  "Println s w = w\<lparr>trace := trace w @ [EvPrint s]\<rparr>"

definition time_Sleep :: "int \<Rightarrow> world \<Rightarrow> world" where
  "time_Sleep d w = w\<lparr>trace := trace w @ [EvSleep d]\<rparr>"

text \<open>\<^verbatim>\<open>time.Duration(s) * time.Second\<close>: a product of \<^verbatim>\<open>int64\<close> values, which wraps.\<close>

definition Duration_Second :: "int \<Rightarrow> int" where
  "Duration_Second s = sint (word_of_int s * 1000000000 :: 64 word)"

text \<open>
  \<^verbatim>\<open>for k, v := range m\<close>: the pairs of the map, in the order the runtime picked.
\<close>

definition range_map :: "string list \<Rightarrow> (string \<rightharpoonup> string) \<Rightarrow> (string \<times> string) list" where
  "range_map order m = List.map_filter (\<lambda>k. map_option (Pair k) (m k)) order"

text \<open>\<^verbatim>\<open>fmt.Sprintf("%v", n)\<close> for an integer: its decimal digits.\<close>

fun decimal :: "nat \<Rightarrow> string" where
  "decimal n =
     (if n < 10 then [''0123456789'' ! n]
      else decimal (n div 10) @ [''0123456789'' ! (n mod 10)])"

declare decimal.simps [simp del]

definition Sprint_int :: "int \<Rightarrow> string" where
  "Sprint_int n = (if n < 0 then CHR ''-'' # decimal (nat (- n)) else decimal (nat n))"

section \<open>SendRequest\<close>

text \<open>\<^verbatim>\<open>req.Header.Set(k, v)\<close>.\<close>

definition Header_Set :: "http_lib \<Rightarrow> string \<Rightarrow> string \<Rightarrow> Request \<Rightarrow> Request" where
  "Header_Set lib k v req =
     req\<lparr>rq_header := (rq_header req)(CanonicalMIMEHeaderKey lib k \<mapsto> [v])\<rparr>"

definition SendRequest ::
  "http_lib \<Rightarrow> iter_env \<Rightarrow> RequestData \<Rightarrow> int \<Rightarrow> int \<Rightarrow> world \<Rightarrow> (error + Response) \<times> world" where
  "SendRequest lib ie reqData retryCount sleepSec w =
     (case http_NewRequest lib (Method reqData) (URL reqData) (Body reqData) of
        Inl err \<Rightarrow> (Inl (LibError err), w)
      | Inr req0 \<Rightarrow>
          (let req = fold (\<lambda>(k, v). Header_Set lib k v)
                       (range_map (send_range ie) (Headers reqData)) req0;
               w' = w\<lparr>trace := trace w @ [EvDo req]\<rparr>
           in case client_Do ie req of
                Inl err \<Rightarrow> (Inl (LibError err), w')
              | Inr resp \<Rightarrow> (Inr resp, w')))"

section \<open>GenerateReport\<close>

definition report_name :: "string \<Rightarrow> int \<Rightarrow> int \<Rightarrow> string" where
  "report_name outputPath unix statusCode =
     outputPath @ ''|'' @ Sprint_int unix @ ''-status:'' @ Sprint_int statusCode @ ''.txt''"

text \<open>\<^verbatim>\<open>os.Create(name)\<close>: the file is created empty, or truncated.\<close>

definition os_Create :: "iter_env \<Rightarrow> string \<Rightarrow> world \<Rightarrow> string option \<times> world" where
  "os_Create ie name w =
     (case os_Create_err ie of
        Some err \<Rightarrow> (Some err, w)
      | None \<Rightarrow> (None, w\<lparr>fs := (fs w)(name \<mapsto> []), trace := trace w @ [EvCreate name]\<rparr>))"

definition file_append :: "string \<Rightarrow> string \<Rightarrow> world \<Rightarrow> world" where
  "file_append name s w =
     w\<lparr>fs := (fs w)(name \<mapsto> (case fs w name of None \<Rightarrow> s | Some old \<Rightarrow> old @ s))\<rparr>"

text \<open>Call number \<open>n\<close> of \<^verbatim>\<open>file.WriteString(s)\<close> on the report file.\<close>

definition WriteString ::
  "iter_env \<Rightarrow> string \<Rightarrow> nat \<Rightarrow> string \<Rightarrow> world \<Rightarrow> string option \<times> world" where
  "WriteString ie name n s w =
     (case write_fault ie of
        None \<Rightarrow> (None, file_append name s w)
      | Some (k, written, err) \<Rightarrow>
          if n = k then (Some err, file_append name (take written s) w)
          else (None, file_append name s w))"

text \<open>
  A run of \<^verbatim>\<open>_, err = file.WriteString(...); if err != nil { return err }\<close> statements,
  starting with call number \<open>n\<close>: it stops at the first error.
\<close>

fun write_each ::
  "iter_env \<Rightarrow> string \<Rightarrow> nat \<Rightarrow> string list \<Rightarrow> world \<Rightarrow> string option \<times> nat \<times> world" where
  "write_each ie name n [] w = (None, n, w)"
| "write_each ie name n (s # ss) w =
     (case WriteString ie name n s w of
        (Some err, w') \<Rightarrow> (Some err, n, w')
      | (None, w') \<Rightarrow> write_each ie name (Suc n) ss w')"

definition GenerateReport ::
  "iter_env \<Rightarrow> string \<Rightarrow> RequestData \<Rightarrow> Response \<Rightarrow> world \<Rightarrow> error option \<times> world" where
  "GenerateReport ie outputPath reqData response w =
     (let name = report_name outputPath (time_Now_Unix ie) (StatusCode response) in
      case os_Create ie name w of
        (Some err, w0) \<Rightarrow> (Some (LibError err), w0)
      | (None, w0) \<Rightarrow>
          (case write_each ie name 0
                  ([''Request Method: '' @ Method reqData @ ''\<newline>Request URL: '' @
                      URL reqData @ ''\<newline>\<newline>'',
                    ''Request Headers:\<newline>''] @
                   map (\<lambda>(k, v). k @ '': '' @ v @ ''\<newline>'')
                     (range_map (report_range ie) (Headers reqData)) @
                   [''\<newline>Request Body:\<newline>'' @ Body reqData @ ''\<newline>\<newline>'']) w0 of
             (Some err, n, w1) \<Rightarrow> (Some (LibError err), w1)
           | (None, n, w1) \<Rightarrow>
               (case ReadAll_Body response of
                  Inl err \<Rightarrow> (Some (LibError err), w1)
                | Inr responseBody \<Rightarrow>
                    (case WriteString ie name n
                            (''Response Status: '' @ Status response @
                             ''\<newline>Response Body:\<newline>'' @ responseBody @ ''\<newline>'') w1 of
                       (Some err, w2) \<Rightarrow> (Some (LibError err), w2)
                     | (None, w2) \<Rightarrow> (None, w2)))))"

section \<open>main\<close>

definition defaultRetry :: int where
  "defaultRetry = 1"

definition defaultSleep :: int where
  "defaultSleep = 0"

text \<open>The retry loop of \<^verbatim>\<open>main\<close> (source lines 177 to 193), from counter value \<open>i\<close>.\<close>

function loop ::
  "http_lib \<Rightarrow> (nat \<Rightarrow> iter_env) \<Rightarrow> string \<Rightarrow> RequestData \<Rightarrow> int \<Rightarrow> int \<Rightarrow> int \<Rightarrow> world \<Rightarrow> world" where
  "loop lib E output reqData retry sleep i w =
     (if i < retry then
        (case SendRequest lib (E (nat i)) reqData retry sleep w of
           (Inl err, w1) \<Rightarrow> Println (error_string err) w1
         | (Inr response, w1) \<Rightarrow>
             (case GenerateReport (E (nat i)) output reqData response w1 of
                (Some err, w2) \<Rightarrow> Println (error_string err) w2
              | (None, w2) \<Rightarrow>
                  loop lib E output reqData retry sleep (i + 1)
                    (time_Sleep (Duration_Second sleep) w2)))
      else w)"
  by pat_completeness auto
termination
  by (relation "measure (\<lambda>(lib, E, output, reqData, retry, sleep, i, w). nat (retry - i))") auto

declare loop.simps [simp del]

text \<open>
  \<^verbatim>\<open>main\<close>, from the parsed flags \<^verbatim>\<open>-source\<close>, \<^verbatim>\<open>-output\<close>, \<^verbatim>\<open>-retry\<close> and \<^verbatim>\<open>-sleep\<close>.
\<close>

definition main ::
  "(string \<Rightarrow> string + Scanner) \<Rightarrow> http_lib \<Rightarrow> (nat \<Rightarrow> iter_env) \<Rightarrow>
   string \<Rightarrow> string \<Rightarrow> int \<Rightarrow> int \<Rightarrow> world \<Rightarrow> world" where
  "main os_Open lib E source output retry0 sleep0 w =
     (if source = [] \<or> output = [] then
        Println ''Usage: httpclient -source <path> -output <path>'' w
      else
        let retry = (if retry0 = 0 then defaultRetry else retry0);
            sleep = (if sleep0 = 0 then defaultSleep else sleep0)
        in case ReadHTTPFile os_Open source of
             Inl err \<Rightarrow> Println (error_string err) w
           | Inr reqData \<Rightarrow> loop lib E output reqData retry sleep 0 w)"

section \<open>Observations on a run\<close>

text \<open>The report file names created, and the requests handed to \<^verbatim>\<open>client.Do\<close>, in order.\<close>

fun created_of :: "event list \<Rightarrow> string list" where
  "created_of [] = []"
| "created_of (EvCreate name # evs) = name # created_of evs"
| "created_of (_ # evs) = created_of evs"

fun requests_of :: "event list \<Rightarrow> Request list" where
  "requests_of [] = []"
| "requests_of (EvDo req # evs) = req # requests_of evs"
| "requests_of (_ # evs) = requests_of evs"

definition empty_world :: world where
  "empty_world = \<lparr>fs = Map.empty, trace = []\<rparr>"

text \<open>
  The body of the retry loop for one value of the counter: \<^verbatim>\<open>SendRequest\<close>, then
  \<^verbatim>\<open>GenerateReport\<close> on its response. The error, if any, is the one \<^verbatim>\<open>main\<close> prints.
\<close>

definition iteration ::
  "http_lib \<Rightarrow> iter_env \<Rightarrow> string \<Rightarrow> RequestData \<Rightarrow> int \<Rightarrow> int \<Rightarrow> world \<Rightarrow> error option \<times> world" where
  "iteration lib ie output reqData retry sleep w =
     (case SendRequest lib ie reqData retry sleep w of
        (Inl err, w1) \<Rightarrow> (Some err, w1)
      | (Inr response, w1) \<Rightarrow> GenerateReport ie output reqData response w1)"

text \<open>
  Whether an iteration fails, the response it receives and the events it causes depend on
  the environment only, so they are read off a run of the iteration in the empty world.
\<close>

definition iteration_outcome ::
  "http_lib \<Rightarrow> iter_env \<Rightarrow> string \<Rightarrow> RequestData \<Rightarrow> int \<Rightarrow> int \<Rightarrow> error option" where
  "iteration_outcome lib ie output reqData retry sleep =
     fst (iteration lib ie output reqData retry sleep empty_world)"

definition iteration_events ::
  "http_lib \<Rightarrow> iter_env \<Rightarrow> string \<Rightarrow> RequestData \<Rightarrow> int \<Rightarrow> int \<Rightarrow> event list" where
  "iteration_events lib ie output reqData retry sleep =
     trace (snd (iteration lib ie output reqData retry sleep empty_world))"

definition response_of ::
  "http_lib \<Rightarrow> iter_env \<Rightarrow> RequestData \<Rightarrow> int \<Rightarrow> int \<Rightarrow> Response option" where
  "response_of lib ie reqData retry sleep =
     (case fst (SendRequest lib ie reqData retry sleep empty_world) of
        Inl err \<Rightarrow> None
      | Inr response \<Rightarrow> Some response)"

text \<open>The events of \<^verbatim>\<open>GenerateReport\<close>: the creation of the report file, unless it fails.\<close>

definition create_events :: "iter_env \<Rightarrow> string \<Rightarrow> Response \<Rightarrow> event list" where
  "create_events ie output resp =
     (case os_Create_err ie of
        None \<Rightarrow> [EvCreate (report_name output (time_Now_Unix ie) (StatusCode resp))]
      | Some err \<Rightarrow> [])"

text \<open>The name of the report file a successful iteration creates.\<close>

definition report_name_of ::
  "http_lib \<Rightarrow> iter_env \<Rightarrow> string \<Rightarrow> RequestData \<Rightarrow> int \<Rightarrow> int \<Rightarrow> string" where
  "report_name_of lib ie output reqData retry sleep =
     report_name output (time_Now_Unix ie)
       (StatusCode (the (response_of lib ie reqData retry sleep)))"

text \<open>A file system in which exactly one path can be opened.\<close>

definition single_file :: "string \<Rightarrow> Scanner \<Rightarrow> string \<Rightarrow> string + Scanner" where
  "single_file path scanner p =
     (if p = path then Inr scanner else Inl ''open: no such file or directory'')"

section \<open>The specification's wording of the request file format\<close>

text \<open>
  The definitions of this section follow the specification, not the code; the theorems
  below compare them with \<open>ReadHTTPFile\<close>.

  The position of the first occurrence of a separator: the least offset at which the rest
  of the line starts with it.
\<close>

definition spec_first_occurrence :: "string \<Rightarrow> string \<Rightarrow> nat option" where
  "spec_first_occurrence sep s = find (\<lambda>j. prefix sep (drop j s)) [0..<Suc (length s)]"

text \<open>
  One header line: a line containing \<^verbatim>\<open>": "\<close> inserts the text before the first occurrence
  as name and the text after it as value (the last write wins); any other line is skipped.
\<close>

definition spec_header_step :: "string \<Rightarrow> (string \<rightharpoonup> string) \<Rightarrow> (string \<rightharpoonup> string)" where
  "spec_header_step line m =
     (case spec_first_occurrence '': '' line of
        None \<Rightarrow> m
      | Some j \<Rightarrow> m(take j line \<mapsto> drop (j + 2) line))"

text \<open>The headers: a fold over the given lines up to, and excluding, the first empty one.\<close>

definition spec_headers :: "string list \<Rightarrow> (string \<rightharpoonup> string)" where
  "spec_headers ls = fold spec_header_step (takeWhile (\<lambda>l. l \<noteq> []) ls) Map.empty"

text \<open>The body: the lines after the first empty line, joined with a newline.\<close>

definition spec_body :: "string list \<Rightarrow> string" where
  "spec_body ls = Join (tl (dropWhile (\<lambda>l. l \<noteq> []) ls)) ''\<newline>''"

text \<open>
  The whitespace-separated tokens of a line (space, tab, line feed, vertical tab, form feed
  and carriage return separate; empty tokens are dropped).
\<close>

definition spec_is_space :: "char \<Rightarrow> bool" where
  "spec_is_space c =
     (c = CHR '' '' \<or> c = CHR 0x09 \<or> c = CHR 0x0A \<or> c = CHR 0x0B \<or> c = CHR 0x0C \<or> c = CHR 0x0D)"

fun spec_tokens_from :: "string \<Rightarrow> string \<Rightarrow> string list" where
  "spec_tokens_from cur [] = (if cur = [] then [] else [cur])"
| "spec_tokens_from cur (c # cs) =
     (if spec_is_space c
      then (if cur = [] then spec_tokens_from [] cs else cur # spec_tokens_from [] cs)
      else spec_tokens_from (cur @ [c]) cs)"

definition spec_tokens :: "string \<Rightarrow> string list" where
  "spec_tokens line = spec_tokens_from [] line"

section \<open>Example environments\<close>

text \<open>
  A library that accepts every method and URL and leaves header names as they are, and an
  iteration in which nothing fails: the request gets the given answer at the given time.
  They serve the concrete runs below.
\<close>

definition plain_lib :: http_lib where
  "plain_lib =
     \<lparr>http_NewRequest =
        (\<lambda>method url body.
           Inr \<lparr>rq_method = method, rq_url = url, rq_body = body, rq_header = Map.empty\<rparr>),
      CanonicalMIMEHeaderKey = (\<lambda>k. k)\<rparr>"

definition quiet_iter :: "string list \<Rightarrow> int \<Rightarrow> string + Response \<Rightarrow> iter_env" where
  "quiet_iter keys unix answer =
     \<lparr>send_range = keys, client_Do = (\<lambda>req. answer), time_Now_Unix = unix,
      os_Create_err = None, report_range = keys, write_fault = None\<rparr>"

text \<open>The same answers in every iteration, and a run that differs in iteration \<open>k\<close>.\<close>

definition every_iteration :: "iter_env \<Rightarrow> nat \<Rightarrow> iter_env" where
  "every_iteration ie i = ie"

definition differing_at :: "nat \<Rightarrow> iter_env \<Rightarrow> iter_env \<Rightarrow> nat \<Rightarrow> iter_env" where
  "differing_at k other ie i = (if i = k then other else ie)"


definition ok_response :: Response where
  "ok_response = \<lparr>Status = ''200 OK'', StatusCode = 200, ReadAll_Body = Inr ''pong''\<rparr>"

section \<open>Lemmas on the string helpers and the parser\<close>

lemma find_map_option: "find P (map f xs) = map_option f (find (P \<circ> f) xs)"
  by (induction xs) auto

lemma Index_first_occurrence: "Index s sep = spec_first_occurrence sep s"
proof (induction s)
  case Nil
  then show ?case by (simp add: spec_first_occurrence_def)
next
  case (Cons c cs)
  have "[0..<Suc (length (c # cs))] = 0 # map Suc [0..<Suc (length cs)]"
    by (simp add: upt_conv_Cons map_Suc_upt del: upt_Suc)
  then show ?case using Cons
    by (simp add: spec_first_occurrence_def find_map_option comp_def del: upt_Suc)
qed

lemma Index_char_None: "Index s [c] = None \<longleftrightarrow> c \<notin> set s"
  by (induction s) auto

lemma Index_char_Some:
  "Index s [c] = Some m \<Longrightarrow>
     take m s = takeWhile (\<lambda>x. x \<noteq> c) s \<and> drop (m + 1) s = tl (dropWhile (\<lambda>x. x \<noteq> c) s)"
  by (induction s arbitrary: m) (auto split: if_splits)

lemma read_body_append: "read_body ls acc = acc @ ls"
  by (induction ls arbitrary: acc) auto

lemma spec_header_step_Index:
  "spec_header_step line m =
     (case Index line '': '' of None \<Rightarrow> m | Some j \<Rightarrow> m(take j line \<mapsto> drop (j + 2) line))"
  by (simp add: spec_header_step_def Index_first_occurrence)

lemma read_headers_spec:
  "read_headers ls h =
     (fold spec_header_step (takeWhile (\<lambda>l. l \<noteq> []) ls) h, tl (dropWhile (\<lambda>l. l \<noteq> []) ls))"
proof (induction ls arbitrary: h)
  case Nil
  then show ?case by simp
next
  case (Cons l ls)
  show ?case
  proof (cases "l = []")
    case True
    then show ?thesis by simp
  next
    case False
    have step: "read_headers (l # ls) h = read_headers ls (spec_header_step l h)"
      using False
      by (cases "Index l '': ''") (simp_all add: SplitN_2_def spec_header_step_Index [of l h])
    have "read_headers ls (spec_header_step l h) =
            (fold spec_header_step (takeWhile (\<lambda>l. l \<noteq> []) ls) (spec_header_step l h),
             tl (dropWhile (\<lambda>l. l \<noteq> []) ls))"
      by (rule Cons.IH)
    with step False show ?thesis by simp
  qed
qed

lemma read_request_line_cases:
  "read_request_line ls =
     (case ls of
        [] \<Rightarrow> Inr ([], [], [])
      | line # rest \<Rightarrow>
          if CHR '' '' \<in> set line
          then Inr (takeWhile (\<lambda>c. c \<noteq> CHR '' '') line,
                    tl (dropWhile (\<lambda>c. c \<noteq> CHR '' '') line), rest)
          else Inl InvalidRequestLine)"
proof (cases ls)
  case Nil
  then show ?thesis by simp
next
  case (Cons line rest)
  show ?thesis
  proof (cases "Index line '' ''")
    case None
    then have "CHR '' '' \<notin> set line" by (simp add: Index_char_None)
    with None Cons show ?thesis by (simp add: SplitN_2_def)
  next
    case (Some m)
    then have "CHR '' '' \<in> set line" using Index_char_None [of line "CHR '' ''"] by auto
    with Some Cons Index_char_Some [OF Some] show ?thesis by (simp add: SplitN_2_def)
  qed
qed

text \<open>The parser in closed form: its three ways to fail, and its result otherwise.\<close>

lemma ReadHTTPFile_closed_form:
  "ReadHTTPFile os_Open p =
     (case os_Open p of
        Inl msg \<Rightarrow> Inl (LibError msg)
      | Inr sc \<Rightarrow>
          if scan_lines sc \<noteq> [] \<and> CHR '' '' \<notin> set (hd (scan_lines sc))
          then Inl InvalidRequestLine
          else (case scan_err sc of
                  Some msg \<Rightarrow> Inl (LibError msg)
                | None \<Rightarrow>
                    Inr \<lparr>Method = takeWhile (\<lambda>c. c \<noteq> CHR '' '')
                                    (case scan_lines sc of [] \<Rightarrow> [] | l # _ \<Rightarrow> l),
                         URL = tl (dropWhile (\<lambda>c. c \<noteq> CHR '' '')
                                    (case scan_lines sc of [] \<Rightarrow> [] | l # _ \<Rightarrow> l)),
                         Headers = spec_headers (tl (scan_lines sc)),
                         Body = Join (tl (dropWhile (\<lambda>l. l \<noteq> []) (tl (scan_lines sc)))) ''\<newline>''\<rparr>))"
  by (simp add: ReadHTTPFile_def read_request_line_cases read_headers_spec read_body_append
      spec_headers_def split: sum.splits list.splits option.splits)

lemma split_at_first_space:
  assumes "CHR '' '' \<in> set line"
  shows "line = takeWhile (\<lambda>c. c \<noteq> CHR '' '') line @ '' '' @
                tl (dropWhile (\<lambda>c. c \<noteq> CHR '' '') line)"
proof -
  from assms have "dropWhile (\<lambda>c. c \<noteq> CHR '' '') line \<noteq> []" by simp
  then have "dropWhile (\<lambda>c. c \<noteq> CHR '' '') line =
               CHR '' '' # tl (dropWhile (\<lambda>c. c \<noteq> CHR '' '') line)"
    using hd_dropWhile [of "\<lambda>c. c \<noteq> CHR '' ''" line]
    by (cases "dropWhile (\<lambda>c. c \<noteq> CHR '' '') line") auto
  then show ?thesis
    using takeWhile_dropWhile_id [of "\<lambda>c. c \<noteq> CHR '' ''" line] by simp
qed

lemma requests_of_append: "requests_of (xs @ ys) = requests_of xs @ requests_of ys"
  by (induction xs rule: requests_of.induct) auto

lemma created_of_append: "created_of (xs @ ys) = created_of xs @ created_of ys"
  by (induction xs rule: created_of.induct) auto

section \<open>The request file parser\<close>

text \<open>
  C10. An input file with no line at all parses successfully: the result has the empty
  method, the empty URL, no header and the empty body. The request line check is made only
  when there is a first line, so no \<open>InvalidRequestLine\<close> arises.
\<close>

theorem empty_file_parses:
  assumes "os_Open p = Inr \<lparr>scan_lines = [], scan_err = None\<rparr>"
  shows "ReadHTTPFile os_Open p = Inr \<lparr>Method = [], URL = [], Headers = Map.empty, Body = []\<rparr>"
  using assms by (simp add: ReadHTTPFile_def)

text \<open>The empty file, as the only file of the file system.\<close>

theorem empty_file_parses_witness:
  "single_file ''req.http'' \<lparr>scan_lines = [], scan_err = None\<rparr> ''req.http''
     = Inr \<lparr>scan_lines = [], scan_err = None\<rparr> \<and>
   ReadHTTPFile (single_file ''req.http'' \<lparr>scan_lines = [], scan_err = None\<rparr>) ''req.http''
     = Inr \<lparr>Method = [], URL = [], Headers = Map.empty, Body = []\<rparr>"
proof -
  have h: "single_file ''req.http'' \<lparr>scan_lines = [], scan_err = None\<rparr> ''req.http''
             = Inr \<lparr>scan_lines = [], scan_err = None\<rparr>"
    by (simp add: single_file_def)
  from h empty_file_parses [of "single_file ''req.http'' \<lparr>scan_lines = [], scan_err = None\<rparr>" "''req.http''"]
  show ?thesis by simp
qed

text \<open>
  C7. When the first line of the file contains a space, the parsed method is the text before
  the first space and the parsed URL is the whole rest of the line after that space, further
  spaces included: the line is the method, one space, and the URL. Such a file parses
  whenever the scanner reports no read error.
\<close>

theorem request_line_split:
  assumes "os_Open p = Inr sc" and "scan_lines sc = line # rest" and "CHR '' '' \<in> set line"
  shows "(scan_err sc = None \<longrightarrow> (\<exists>r. ReadHTTPFile os_Open p = Inr r)) \<and>
         (\<forall>r. ReadHTTPFile os_Open p = Inr r \<longrightarrow>
            Method r = takeWhile (\<lambda>c. c \<noteq> CHR '' '') line \<and>
            URL r = tl (dropWhile (\<lambda>c. c \<noteq> CHR '' '') line) \<and>
            line = Method r @ '' '' @ URL r)"
  using assms split_at_first_space [OF assms(3)]
  by (auto simp: ReadHTTPFile_closed_form split: option.splits)

text \<open>A request line of four space-separated tokens: the last three form the URL.\<close>

theorem request_line_split_witness:
  "ReadHTTPFile
     (single_file ''req.http''
        \<lparr>scan_lines = [''GET http://x/y?q=a b c'', ''A: 1''], scan_err = None\<rparr>) ''req.http''
   = Inr \<lparr>Method = ''GET'', URL = ''http://x/y?q=a b c'', Headers = [''A'' \<mapsto> ''1''], Body = []\<rparr> \<and>
   ''GET http://x/y?q=a b c'' = ''GET'' @ '' '' @ ''http://x/y?q=a b c''"
proof -
  let ?sc = "\<lparr>scan_lines = [''GET http://x/y?q=a b c'', ''A: 1''], scan_err = None\<rparr>"
  have h1: "single_file ''req.http'' ?sc ''req.http'' = Inr ?sc"
    by (simp add: single_file_def)
  have h2: "scan_lines ?sc = ''GET http://x/y?q=a b c'' # [''A: 1'']" by simp
  have h3: "CHR '' '' \<in> set ''GET http://x/y?q=a b c''" by simp
  have h4: "ReadHTTPFile (single_file ''req.http'' ?sc) ''req.http''
    = Inr \<lparr>Method = ''GET'', URL = ''http://x/y?q=a b c'', Headers = [''A'' \<mapsto> ''1''], Body = []\<rparr>"
    by (simp add: ReadHTTPFile_def single_file_def SplitN_2_def)
  from request_line_split [of "single_file ''req.http'' ?sc" "''req.http''" ?sc
      "''GET http://x/y?q=a b c''" "[''A: 1'']"] h1 h2 h3 h4
  show ?thesis by simp
qed

text \<open>
  C6. For every input file that parses, the headers of the result are the fold of
  \<open>spec_header_step\<close> over the lines after the first one, up to and excluding the first empty
  line: a line with \<^verbatim>\<open>": "\<close> stores the text before the first occurrence under the text after
  it, the last write winning, and a line without it is skipped and is no error.
\<close>

theorem headers_fold:
  assumes "os_Open p = Inr sc" and "ReadHTTPFile os_Open p = Inr r"
  shows "Headers r = spec_headers (tl (scan_lines sc))"
  using assms by (auto simp: ReadHTTPFile_closed_form split: option.splits if_splits)

text \<open>A file with a duplicate header name, a line without separator and a body line that looks like a header.\<close>

theorem headers_fold_witness:
  "ReadHTTPFile
     (single_file ''req.http''
        \<lparr>scan_lines = [''GET http://x/y'', ''A: 1'', ''garbage'', ''A: 2: 3'', '''', ''B: 4''],
         scan_err = None\<rparr>) ''req.http''
   = Inr \<lparr>Method = ''GET'', URL = ''http://x/y'', Headers = [''A'' \<mapsto> ''2: 3''], Body = ''B: 4''\<rparr> \<and>
   spec_headers [''A: 1'', ''garbage'', ''A: 2: 3'', '''', ''B: 4''] = [''A'' \<mapsto> ''2: 3'']"
proof -
  let ?sc = "\<lparr>scan_lines = [''GET http://x/y'', ''A: 1'', ''garbage'', ''A: 2: 3'', '''', ''B: 4''],
         scan_err = None\<rparr>"
  have h1: "single_file ''req.http'' ?sc ''req.http'' = Inr ?sc"
    by (simp add: single_file_def)
  have h2: "ReadHTTPFile (single_file ''req.http'' ?sc) ''req.http''
    = Inr \<lparr>Method = ''GET'', URL = ''http://x/y'', Headers = [''A'' \<mapsto> ''2: 3''], Body = ''B: 4''\<rparr>"
    by (simp add: ReadHTTPFile_def single_file_def SplitN_2_def)
  from headers_fold [of "single_file ''req.http'' ?sc" "''req.http''" ?sc, OF h1 h2] h2
  show ?thesis by simp
qed

text \<open>
  C8, amended. For every input file that is read without error and whose request line is
  accepted (the file is empty or its first line has a space), parsing succeeds and the parsed
  body is the lines after the first empty line, joined with a newline and otherwise
  unchanged; when such a file has no empty line, or its only empty line is the last line,
  the body is the empty string.
\<close>

theorem body_after_blank_line:
  assumes "os_Open p = Inr sc" and "scan_err sc = None"
    and "scan_lines sc = [] \<or> CHR '' '' \<in> set (hd (scan_lines sc))"
  shows "\<exists>r. ReadHTTPFile os_Open p = Inr r \<and>
             Body r = spec_body (scan_lines sc) \<and>
             (([] \<notin> set (scan_lines sc) \<or>
               (scan_lines sc \<noteq> [] \<and> last (scan_lines sc) = [] \<and> [] \<notin> set (butlast (scan_lines sc))))
              \<longrightarrow> Body r = [])"
proof -
  let ?ls = "scan_lines sc"
  have same: "dropWhile (\<lambda>l. l \<noteq> []) ?ls = dropWhile (\<lambda>l. l \<noteq> []) (tl ?ls)"
    using assms(3) by (cases ?ls) auto
  have none: "spec_body ?ls = []" if "[] \<notin> set ?ls"
  proof -
    from that have dw: "dropWhile (\<lambda>l. l \<noteq> []) ?ls = []"
      by simp metis
    show ?thesis unfolding spec_body_def dw by simp
  qed
  have lastb: "spec_body ?ls = []"
    if "?ls \<noteq> []" "last ?ls = []" "[] \<notin> set (butlast ?ls)"
  proof -
    from that have "?ls = butlast ?ls @ [[]]" by (metis append_butlast_last_id)
    then have dw: "dropWhile (\<lambda>l. l \<noteq> []) ?ls = dropWhile (\<lambda>l. l \<noteq> []) [[]]"
      using that(3) dropWhile_append2 [of "butlast ?ls" "\<lambda>l. l \<noteq> []" "[[]]"] by auto
    show ?thesis unfolding spec_body_def dw by simp
  qed
  have "ReadHTTPFile os_Open p =
          Inr \<lparr>Method = takeWhile (\<lambda>c. c \<noteq> CHR '' '') (case ?ls of [] \<Rightarrow> [] | l # _ \<Rightarrow> l),
               URL = tl (dropWhile (\<lambda>c. c \<noteq> CHR '' '') (case ?ls of [] \<Rightarrow> [] | l # _ \<Rightarrow> l)),
               Headers = spec_headers (tl ?ls),
               Body = spec_body ?ls\<rparr>"
    using assms same by (auto simp: ReadHTTPFile_closed_form spec_body_def)
  with none lastb show ?thesis by auto
qed

text \<open>A body with an empty line inside and at its end, and a file that ends in the headers.\<close>

theorem body_after_blank_line_witness:
  "(\<exists>r. ReadHTTPFile
     (single_file ''req.http''
        \<lparr>scan_lines = [''POST http://x/y'', ''A: 1'', '''', ''hello'', '''', ''world'', ''''],
         scan_err = None\<rparr>) ''req.http'' = Inr r \<and> Body r = ''hello\<newline>\<newline>world\<newline>'') \<and>
   (\<exists>r. ReadHTTPFile
     (single_file ''req.http'' \<lparr>scan_lines = [''POST http://x/y'', ''A: 1''], scan_err = None\<rparr>)
       ''req.http'' = Inr r \<and> Body r = [])"
proof -
  let ?sc = "\<lparr>scan_lines = [''POST http://x/y'', ''A: 1'', '''', ''hello'', '''', ''world'', ''''],
         scan_err = None\<rparr>"
  let ?sc' = "\<lparr>scan_lines = [''POST http://x/y'', ''A: 1''], scan_err = None\<rparr>"
  have a: "single_file ''req.http'' ?sc ''req.http'' = Inr ?sc"
    and a': "single_file ''req.http'' ?sc' ''req.http'' = Inr ?sc'"
    by (simp_all add: single_file_def)
  have b: "scan_err ?sc = None" and b': "scan_err ?sc' = None" by simp_all
  have c: "scan_lines ?sc = [] \<or> CHR '' '' \<in> set (hd (scan_lines ?sc))"
    and c': "scan_lines ?sc' = [] \<or> CHR '' '' \<in> set (hd (scan_lines ?sc'))" by simp_all
  from body_after_blank_line [of "single_file ''req.http'' ?sc" "''req.http''" ?sc, OF a b c]
    body_after_blank_line [of "single_file ''req.http'' ?sc'" "''req.http''" ?sc', OF a' b' c']
  show ?thesis by (simp add: spec_body_def)
qed

text \<open>
  Without the condition on the request line, parsing does fail for a file with no empty
  line, and for a file whose empty line is the last one: the first line has no space.
\<close>

theorem body_needs_request_line_counterexample:
  "[] \<notin> set [''GET''] \<and>
   ReadHTTPFile (single_file ''req.http'' \<lparr>scan_lines = [''GET''], scan_err = None\<rparr>)
     ''req.http'' = Inl InvalidRequestLine \<and>
   last [''GET'', ''A: 1'', ''''] = [] \<and> [] \<notin> set (butlast [''GET'', ''A: 1'', '''']) \<and>
   ReadHTTPFile
     (single_file ''req.http'' \<lparr>scan_lines = [''GET'', ''A: 1'', ''''], scan_err = None\<rparr>)
     ''req.http'' = Inl InvalidRequestLine"
  by (simp add: ReadHTTPFile_def single_file_def SplitN_2_def)

text \<open>
  C1, amended. Parsing fails with \<open>InvalidRequestLine\<close> exactly when the file can be opened,
  has a first line, and that line contains no space character. Parsing fails at all exactly
  when the file cannot be opened, or its first line has no space, or the scanner reports a
  read error. Whenever parsing fails, \<open>main\<close> prints the error and returns: it calls
  \<^verbatim>\<open>client.Do\<close> not once and leaves the files untouched.
\<close>

theorem parse_failure_cases:
  "(ReadHTTPFile os_Open source = Inl InvalidRequestLine \<longleftrightarrow>
      (\<exists>sc. os_Open source = Inr sc \<and> scan_lines sc \<noteq> [] \<and> CHR '' '' \<notin> set (hd (scan_lines sc)))) \<and>
   ((\<exists>err. ReadHTTPFile os_Open source = Inl err) \<longleftrightarrow>
      (\<exists>msg. os_Open source = Inl msg) \<or>
      (\<exists>sc. os_Open source = Inr sc \<and>
         ((scan_lines sc \<noteq> [] \<and> CHR '' '' \<notin> set (hd (scan_lines sc))) \<or> scan_err sc \<noteq> None))) \<and>
   (source \<noteq> [] \<and> output \<noteq> [] \<and> ReadHTTPFile os_Open source = Inl err \<longrightarrow>
      main os_Open lib E source output retry sleep w = Println (error_string err) w \<and>
      requests_of (trace (main os_Open lib E source output retry sleep w)) = requests_of (trace w) \<and>
      fs (main os_Open lib E source output retry sleep w) = fs w)"
proof (intro conjI)
  show "ReadHTTPFile os_Open source = Inl InvalidRequestLine \<longleftrightarrow>
      (\<exists>sc. os_Open source = Inr sc \<and> scan_lines sc \<noteq> [] \<and> CHR '' '' \<notin> set (hd (scan_lines sc)))"
    by (auto simp: ReadHTTPFile_closed_form split: sum.splits option.splits if_splits)
  show "(\<exists>err. ReadHTTPFile os_Open source = Inl err) \<longleftrightarrow>
      (\<exists>msg. os_Open source = Inl msg) \<or>
      (\<exists>sc. os_Open source = Inr sc \<and>
         ((scan_lines sc \<noteq> [] \<and> CHR '' '' \<notin> set (hd (scan_lines sc))) \<or> scan_err sc \<noteq> None))"
    by (auto simp: ReadHTTPFile_closed_form split: sum.splits option.splits if_splits)
  show "source \<noteq> [] \<and> output \<noteq> [] \<and> ReadHTTPFile os_Open source = Inl err \<longrightarrow>
      main os_Open lib E source output retry sleep w = Println (error_string err) w \<and>
      requests_of (trace (main os_Open lib E source output retry sleep w)) = requests_of (trace w) \<and>
      fs (main os_Open lib E source output retry sleep w) = fs w"
    by (simp add: main_def Println_def requests_of_append Let_def)
qed

text \<open>A first line without a space.\<close>

theorem parse_failure_cases_witness:
  "ReadHTTPFile (single_file ''req.http'' \<lparr>scan_lines = [''GET'', ''A: 1''], scan_err = None\<rparr>)
     ''req.http'' = Inl InvalidRequestLine \<and>
   main (single_file ''req.http'' \<lparr>scan_lines = [''GET'', ''A: 1''], scan_err = None\<rparr>)
     plain_lib (\<lambda>i. quiet_iter [] 1700000000 (Inr ok_response)) ''req.http'' ''out'' 3 0 empty_world
     = \<lparr>fs = Map.empty, trace = [EvPrint ''invalid request line'']\<rparr>"
proof -
  let ?sc = "\<lparr>scan_lines = [''GET'', ''A: 1''], scan_err = None\<rparr>"
  have "\<exists>sc. single_file ''req.http'' ?sc ''req.http'' = Inr sc \<and> scan_lines sc \<noteq> [] \<and>
          CHR '' '' \<notin> set (hd (scan_lines sc))"
    by (simp add: single_file_def)
  with parse_failure_cases [of "single_file ''req.http'' ?sc" "''req.http''" "''out''"
      InvalidRequestLine plain_lib "\<lambda>i. quiet_iter [] 1700000000 (Inr ok_response)" 3 0 empty_world]
  show ?thesis by (simp add: Println_def empty_world_def)
qed

text \<open>
  The criterion "the first line splits into exactly two whitespace-separated tokens" does not
  decide failure: a line of three tokens parses, and a line of two tokens separated by a tab
  is rejected.
\<close>

theorem request_line_tokens_counterexample:
  "ReadHTTPFile
     (single_file ''req.http'' \<lparr>scan_lines = [''GET http://x/y?q=a b''], scan_err = None\<rparr>)
     ''req.http''
   = Inr \<lparr>Method = ''GET'', URL = ''http://x/y?q=a b'', Headers = Map.empty, Body = []\<rparr> \<and>
   spec_tokens ''GET http://x/y?q=a b'' = [''GET'', ''http://x/y?q=a'', ''b''] \<and>
   ReadHTTPFile
     (single_file ''req.http'' \<lparr>scan_lines = [[CHR ''G'', CHR ''E'', CHR ''T'', CHR 0x09, CHR ''/'']], scan_err = None\<rparr>)
     ''req.http''
   = Inl InvalidRequestLine \<and>
   spec_tokens [CHR ''G'', CHR ''E'', CHR ''T'', CHR 0x09, CHR ''/''] = [''GET'', ''/'']"
  by (simp add: ReadHTTPFile_def single_file_def SplitN_2_def spec_tokens_def spec_is_space_def)

section \<open>Lemmas on the report writer and on one iteration\<close>

lemma WriteString_fst:
  "fst (WriteString ie name n s w) = fst (WriteString ie name n s w')"
  by (simp add: WriteString_def split: option.splits prod.splits)

lemma WriteString_trace: "trace (snd (WriteString ie name n s w)) = trace w"
  by (simp add: WriteString_def file_append_def split: option.splits prod.splits)

lemma WriteString_dom: "dom (fs (snd (WriteString ie name n s w))) = insert name (dom (fs w))"
  by (simp add: WriteString_def file_append_def split: option.splits prod.splits)

lemma WriteString_ok:
  "WriteString ie name n s w = (None, w') \<Longrightarrow> w' = file_append name s w"
  by (auto simp: WriteString_def split: option.splits prod.splits if_splits)

lemma write_each_trace: "trace (snd (snd (write_each ie name n ss w))) = trace w"
proof (induction ss arbitrary: n w)
  case Nil
  then show ?case by simp
next
  case (Cons s ss)
  show ?case
  proof (cases "WriteString ie name n s w")
    case (Pair r w')
    with WriteString_trace [of ie name n s w] have "trace w' = trace w" by simp
    with Pair Cons.IH [of "Suc n" w'] show ?thesis by (cases r) simp_all
  qed
qed

lemma write_each_dom:
  "name \<in> dom (fs w) \<Longrightarrow> dom (fs (snd (snd (write_each ie name n ss w)))) = dom (fs w)"
proof (induction ss arbitrary: n w)
  case Nil
  then show ?case by simp
next
  case (Cons s ss)
  show ?case
  proof (cases "WriteString ie name n s w")
    case (Pair r w')
    with WriteString_dom [of ie name n s w] Cons.prems have d: "dom (fs w') = dom (fs w)" by auto
    with Cons.prems have "name \<in> dom (fs w')" by simp
    from Cons.IH [OF this, of "Suc n"] Pair d show ?thesis by (cases r) simp_all
  qed
qed

lemma write_each_indep:
  "fst (write_each ie name n ss w) = fst (write_each ie name n ss w') \<and>
   fst (snd (write_each ie name n ss w)) = fst (snd (write_each ie name n ss w'))"
proof (induction ss arbitrary: n w w')
  case Nil
  then show ?case by simp
next
  case (Cons s ss)
  obtain r v where a: "WriteString ie name n s w = (r, v)" by (cases "WriteString ie name n s w")
  obtain r' v' where b: "WriteString ie name n s w' = (r', v')" by (cases "WriteString ie name n s w'")
  from a b WriteString_fst [of ie name n s w w'] have "r = r'" by simp
  with a b Cons.IH [of "Suc n" v v'] show ?case by (cases r') auto
qed

lemma write_each_ok:
  "write_each ie name n ss w = (None, n', w') \<Longrightarrow> fs w name = Some old \<Longrightarrow>
     n' = n + length ss \<and> fs w' = (fs w)(name \<mapsto> old @ concat ss) \<and> trace w' = trace w"
proof (induction ss arbitrary: n w old)
  case Nil
  then show ?case by auto
next
  case (Cons s ss)
  obtain r v where a: "WriteString ie name n s w = (r, v)" by (cases "WriteString ie name n s w")
  with Cons.prems(1) have r: "r = None" and rest: "write_each ie name (Suc n) ss v = (None, n', w')"
    by (cases r; simp)+
  from a r have v: "v = file_append name s w" by (simp add: WriteString_ok)
  with Cons.prems(2) have "fs v name = Some (old @ s)" by (simp add: file_append_def)
  from Cons.IH [OF rest this]
  have "n' = Suc n + length ss" and "fs w' = (fs v)(name \<mapsto> (old @ s) @ concat ss)"
    and "trace w' = trace v" by auto
  moreover have "fs v = (fs w)(name \<mapsto> old @ s)" and "trace v = trace w"
    using v Cons.prems(2) by (simp_all add: file_append_def)
  ultimately show ?case by simp
qed

lemma write_each_no_fault:
  "write_fault ie = None \<Longrightarrow> fst (write_each ie name n ss w) = None"
  by (induction ss arbitrary: n w) (simp_all add: WriteString_def)

lemma SendRequest_fst:
  "fst (SendRequest lib ie rd retry sleep w) = fst (SendRequest lib ie rd retry sleep w')"
  by (simp add: SendRequest_def Let_def split: sum.splits)

lemma SendRequest_trace:
  "trace (snd (SendRequest lib ie rd retry sleep w)) =
     trace w @ trace (snd (SendRequest lib ie rd retry sleep empty_world))"
  by (simp add: SendRequest_def Let_def empty_world_def split: sum.splits)

lemma SendRequest_fs: "fs (snd (SendRequest lib ie rd retry sleep w)) = fs w"
  by (simp add: SendRequest_def Let_def split: sum.splits)

lemma SendRequest_events:
  "created_of (trace (snd (SendRequest lib ie rd retry sleep empty_world))) = [] \<and>
   length (requests_of (trace (snd (SendRequest lib ie rd retry sleep empty_world)))) \<le> 1 \<and>
   (\<forall>resp. fst (SendRequest lib ie rd retry sleep empty_world) = Inr resp \<longrightarrow>
      (\<exists>req. trace (snd (SendRequest lib ie rd retry sleep empty_world)) = [EvDo req]))"
  by (simp add: SendRequest_def Let_def empty_world_def split: sum.splits)

lemma GenerateReport_trace:
  "trace (snd (GenerateReport ie output rd resp w)) = trace w @ create_events ie output resp"
proof (cases "os_Create_err ie")
  case None
  let ?name = "report_name output (time_Now_Unix ie) (StatusCode resp)"
  let ?w0 = "w\<lparr>fs := (fs w)(?name \<mapsto> []), trace := trace w @ [EvCreate ?name]\<rparr>"
  let ?ss = "[''Request Method: '' @ Method rd @ ''\<newline>Request URL: '' @ URL rd @ ''\<newline>\<newline>'',
              ''Request Headers:\<newline>''] @
             map (\<lambda>(k, v). k @ '': '' @ v @ ''\<newline>'') (range_map (report_range ie) (Headers rd)) @
             [''\<newline>Request Body:\<newline>'' @ Body rd @ ''\<newline>\<newline>'']"
  obtain r n w1 where we: "write_each ie ?name 0 ?ss ?w0 = (r, n, w1)"
    by (cases "write_each ie ?name 0 ?ss ?w0") auto
  with write_each_trace [of ie ?name 0 ?ss ?w0] have t1: "trace w1 = trace w @ [EvCreate ?name]"
    by simp
  show ?thesis
  proof (cases r)
    case (Some e)
    with None we t1 show ?thesis
      by (simp add: GenerateReport_def os_Create_def create_events_def Let_def)
  next
    case rNone: None
    show ?thesis
    proof (cases "ReadAll_Body resp")
      case (Inl e)
      with None rNone we t1 show ?thesis
        by (simp add: GenerateReport_def os_Create_def create_events_def Let_def)
    next
      case (Inr b)
      let ?s = "''Response Status: '' @ Status resp @ ''\<newline>Response Body:\<newline>'' @ b @ ''\<newline>''"
      obtain r2 w2 where ws: "WriteString ie ?name n ?s w1 = (r2, w2)"
        by (cases "WriteString ie ?name n ?s w1")
      with WriteString_trace [of ie ?name n ?s w1] t1 have "trace w2 = trace w @ [EvCreate ?name]"
        by simp
      with None rNone we Inr ws show ?thesis
        by (cases r2) (simp_all add: GenerateReport_def os_Create_def create_events_def Let_def)
    qed
  qed
next
  case (Some e)
  then show ?thesis
    by (simp add: GenerateReport_def os_Create_def create_events_def Let_def)
qed


lemma GenerateReport_fst_dom:
  "fst (GenerateReport ie output rd resp w) = fst (GenerateReport ie output rd resp w') \<and>
   dom (fs (snd (GenerateReport ie output rd resp w))) =
     dom (fs w) \<union> set (created_of (create_events ie output resp))"
proof (cases "os_Create_err ie")
  case None
  let ?name = "report_name output (time_Now_Unix ie) (StatusCode resp)"
  let ?w0 = "w\<lparr>fs := (fs w)(?name \<mapsto> []), trace := trace w @ [EvCreate ?name]\<rparr>"
  let ?w0' = "w'\<lparr>fs := (fs w')(?name \<mapsto> []), trace := trace w' @ [EvCreate ?name]\<rparr>"
  let ?ss = "[''Request Method: '' @ Method rd @ ''\<newline>Request URL: '' @ URL rd @ ''\<newline>\<newline>'',
              ''Request Headers:\<newline>''] @
             map (\<lambda>(k, v). k @ '': '' @ v @ ''\<newline>'') (range_map (report_range ie) (Headers rd)) @
             [''\<newline>Request Body:\<newline>'' @ Body rd @ ''\<newline>\<newline>'']"
  obtain r n w1 where we: "write_each ie ?name 0 ?ss ?w0 = (r, n, w1)"
    by (cases "write_each ie ?name 0 ?ss ?w0") auto
  obtain r' n' w1' where we': "write_each ie ?name 0 ?ss ?w0' = (r', n', w1')"
    by (cases "write_each ie ?name 0 ?ss ?w0'") auto
  from we we' write_each_indep [of ie ?name 0 ?ss ?w0 ?w0'] have same: "r' = r" "n' = n" by simp_all
  have "?name \<in> dom (fs ?w0)" by simp
  from write_each_dom [OF this, of ie 0 ?ss] we
  have d1: "dom (fs w1) = insert ?name (dom (fs w))" by simp
  show ?thesis
  proof (cases r)
    case (Some e)
    with None we we' same d1 show ?thesis
      by (simp add: GenerateReport_def os_Create_def create_events_def Let_def)
  next
    case rNone: None
    show ?thesis
    proof (cases "ReadAll_Body resp")
      case (Inl e)
      with None rNone we we' same d1 show ?thesis
        by (simp add: GenerateReport_def os_Create_def create_events_def Let_def)
    next
      case (Inr b)
      let ?s = "''Response Status: '' @ Status resp @ ''\<newline>Response Body:\<newline>'' @ b @ ''\<newline>''"
      obtain r2 w2 where ws: "WriteString ie ?name n ?s w1 = (r2, w2)"
        by (cases "WriteString ie ?name n ?s w1")
      obtain r2' w2' where ws': "WriteString ie ?name n ?s w1' = (r2', w2')"
        by (cases "WriteString ie ?name n ?s w1'")
      from ws ws' WriteString_fst [of ie ?name n ?s w1 w1'] have r2: "r2' = r2" by simp
      from ws WriteString_dom [of ie ?name n ?s w1] d1
      have d2: "dom (fs w2) = insert ?name (dom (fs w))" by simp
      from None rNone we we' same Inr ws ws' r2 d2 show ?thesis
        by (cases r2) (simp_all add: GenerateReport_def os_Create_def create_events_def Let_def)
    qed
  qed
next
  case (Some e)
  then show ?thesis
    by (simp add: GenerateReport_def os_Create_def create_events_def Let_def)
qed

lemma GenerateReport_content:
  assumes "GenerateReport ie output rd resp w = (None, w')"
  shows "\<exists>responseBody. ReadAll_Body resp = Inr responseBody \<and>
           fs w' (report_name output (time_Now_Unix ie) (StatusCode resp)) =
             Some (''Request Method: '' @ Method rd @ ''\<newline>Request URL: '' @ URL rd @ ''\<newline>\<newline>'' @
                   ''Request Headers:\<newline>'' @
                   concat (map (\<lambda>(k, v). k @ '': '' @ v @ ''\<newline>'')
                             (range_map (report_range ie) (Headers rd))) @
                   ''\<newline>Request Body:\<newline>'' @ Body rd @ ''\<newline>\<newline>'' @
                   ''Response Status: '' @ Status resp @ ''\<newline>Response Body:\<newline>'' @
                   responseBody @ ''\<newline>'')"
proof -
  let ?name = "report_name output (time_Now_Unix ie) (StatusCode resp)"
  let ?w0 = "w\<lparr>fs := (fs w)(?name \<mapsto> []), trace := trace w @ [EvCreate ?name]\<rparr>"
  let ?ss = "[''Request Method: '' @ Method rd @ ''\<newline>Request URL: '' @ URL rd @ ''\<newline>\<newline>'',
              ''Request Headers:\<newline>''] @
             map (\<lambda>(k, v). k @ '': '' @ v @ ''\<newline>'') (range_map (report_range ie) (Headers rd)) @
             [''\<newline>Request Body:\<newline>'' @ Body rd @ ''\<newline>\<newline>'']"
  from assms have cr: "os_Create_err ie = None"
    by (cases "os_Create_err ie") (simp_all add: GenerateReport_def os_Create_def Let_def)
  obtain r n w1 where we: "write_each ie ?name 0 ?ss ?w0 = (r, n, w1)"
    by (cases "write_each ie ?name 0 ?ss ?w0") auto
  from assms cr we have r: "r = None"
    by (cases r) (simp_all add: GenerateReport_def os_Create_def Let_def)
  from assms cr we r obtain b where b: "ReadAll_Body resp = Inr b"
    by (cases "ReadAll_Body resp") (simp_all add: GenerateReport_def os_Create_def Let_def)
  let ?s = "''Response Status: '' @ Status resp @ ''\<newline>Response Body:\<newline>'' @ b @ ''\<newline>''"
  obtain r2 w2 where ws: "WriteString ie ?name n ?s w1 = (r2, w2)"
    by (cases "WriteString ie ?name n ?s w1")
  from assms cr we r b ws have r2: "r2 = None" and w2: "w2 = w'"
    by (cases r2; simp add: GenerateReport_def os_Create_def Let_def)+
  have "fs ?w0 ?name = Some []" by simp
  from write_each_ok [OF we [unfolded r] this] have "fs w1 ?name = Some (concat ?ss)" by simp
  moreover from ws r2 w2 have "w' = file_append ?name ?s w1" by (simp add: WriteString_ok)
  ultimately have "fs w' ?name = Some (concat ?ss @ ?s)" by (simp add: file_append_def)
  with b show ?thesis by simp
qed

lemma GenerateReport_no_fault:
  assumes "os_Create_err ie = None" and "write_fault ie = None" and "ReadAll_Body resp = Inr b"
  shows "fst (GenerateReport ie output rd resp w) = None"
proof -
  let ?name = "report_name output (time_Now_Unix ie) (StatusCode resp)"
  let ?w0 = "w\<lparr>fs := (fs w)(?name \<mapsto> []), trace := trace w @ [EvCreate ?name]\<rparr>"
  let ?ss = "[''Request Method: '' @ Method rd @ ''\<newline>Request URL: '' @ URL rd @ ''\<newline>\<newline>'',
              ''Request Headers:\<newline>''] @
             map (\<lambda>(k, v). k @ '': '' @ v @ ''\<newline>'') (range_map (report_range ie) (Headers rd)) @
             [''\<newline>Request Body:\<newline>'' @ Body rd @ ''\<newline>\<newline>'']"
  obtain r n w1 where we: "write_each ie ?name 0 ?ss ?w0 = (r, n, w1)"
    by (cases "write_each ie ?name 0 ?ss ?w0") auto
  with write_each_no_fault [OF assms(2), of ?name 0 ?ss ?w0] have "r = None" by simp
  with assms we show ?thesis
    by (simp add: GenerateReport_def os_Create_def Let_def WriteString_def)
qed

lemma iteration_facts:
  "fst (iteration lib ie output rd retry sleep w) = iteration_outcome lib ie output rd retry sleep \<and>
   trace (snd (iteration lib ie output rd retry sleep w)) =
     trace w @ iteration_events lib ie output rd retry sleep \<and>
   dom (fs (snd (iteration lib ie output rd retry sleep w))) =
     dom (fs w) \<union> set (created_of (iteration_events lib ie output rd retry sleep))"
proof -
  obtain res w1 where a: "SendRequest lib ie rd retry sleep w = (res, w1)"
    by (cases "SendRequest lib ie rd retry sleep w")
  obtain res0 w10 where b: "SendRequest lib ie rd retry sleep empty_world = (res0, w10)"
    by (cases "SendRequest lib ie rd retry sleep empty_world")
  from a b SendRequest_fst [of lib ie rd retry sleep w empty_world] have res: "res0 = res" by simp
  from a b SendRequest_trace [of lib ie rd retry sleep w] have t: "trace w1 = trace w @ trace w10"
    by simp
  from a SendRequest_fs [of lib ie rd retry sleep w] have f: "fs w1 = fs w" by simp
  from b SendRequest_events [of lib ie rd retry sleep] have c: "created_of (trace w10) = []" by simp
  show ?thesis
  proof (cases res)
    case (Inl e)
    with a b res t f c show ?thesis
      by (simp add: iteration_def iteration_outcome_def iteration_events_def)
  next
    case (Inr resp)
    with a b res t f c
      GenerateReport_fst_dom [of ie "output" rd resp w1 w10]
      GenerateReport_trace [of ie "output" rd resp w1]
      GenerateReport_trace [of ie "output" rd resp w10]
    show ?thesis
      by (simp add: iteration_def iteration_outcome_def iteration_events_def created_of_append)
  qed
qed

lemma iteration_ok_events:
  assumes "iteration_outcome lib ie output rd retry sleep = None"
  shows "\<exists>req resp. response_of lib ie rd retry sleep = Some resp \<and>
           iteration_events lib ie output rd retry sleep =
             [EvDo req, EvCreate (report_name output (time_Now_Unix ie) (StatusCode resp))]"
proof -
  obtain res0 w10 where b: "SendRequest lib ie rd retry sleep empty_world = (res0, w10)"
    by (cases "SendRequest lib ie rd retry sleep empty_world")
  from assms b obtain resp where resp: "res0 = Inr resp"
    by (cases res0) (simp_all add: iteration_outcome_def iteration_def)
  with b SendRequest_events [of lib ie rd retry sleep] obtain req where req: "trace w10 = [EvDo req]"
    by auto
  from assms b resp have g: "fst (GenerateReport ie output rd resp w10) = None"
    by (simp add: iteration_outcome_def iteration_def)
  then have "os_Create_err ie = None"
    by (cases "os_Create_err ie") (simp_all add: GenerateReport_def os_Create_def Let_def)
  with b resp req GenerateReport_trace [of ie "output" rd resp w10] show ?thesis
    by (simp add: response_of_def iteration_events_def iteration_def create_events_def)
qed

lemma iteration_events_bounds:
  "length (requests_of (iteration_events lib ie output rd retry sleep)) \<le> 1 \<and>
   length (created_of (iteration_events lib ie output rd retry sleep)) \<le> 1 \<and>
   (response_of lib ie rd retry sleep = None \<or> os_Create_err ie \<noteq> None \<longrightarrow>
      created_of (iteration_events lib ie output rd retry sleep) = [])"
proof -
  obtain res0 w10 where b: "SendRequest lib ie rd retry sleep empty_world = (res0, w10)"
    by (cases "SendRequest lib ie rd retry sleep empty_world")
  from b SendRequest_events [of lib ie rd retry sleep]
  have c: "created_of (trace w10) = []" "length (requests_of (trace w10)) \<le> 1" by simp_all
  show ?thesis
  proof (cases res0)
    case (Inl e)
    with b c show ?thesis by (simp add: iteration_events_def iteration_def)
  next
    case (Inr resp)
    with b c GenerateReport_trace [of ie "output" rd resp w10] show ?thesis
      by (auto simp: iteration_events_def iteration_def response_of_def create_events_def
          created_of_append requests_of_append split: option.splits)
  qed
qed

lemma iteration_events_created:
  assumes "response_of lib ie rd retry sleep = Some resp" and "os_Create_err ie = None"
  shows "created_of (iteration_events lib ie output rd retry sleep) =
           [report_name output (time_Now_Unix ie) (StatusCode resp)]"
proof -
  obtain res0 w10 where b: "SendRequest lib ie rd retry sleep empty_world = (res0, w10)"
    by (cases "SendRequest lib ie rd retry sleep empty_world")
  with assms(1) have res: "res0 = Inr resp"
    by (cases res0) (simp_all add: response_of_def)
  from b SendRequest_events [of lib ie rd retry sleep]
  have c: "created_of (trace w10) = []" by simp
  from b res c assms(2) GenerateReport_trace [of ie "output" rd resp w10] show ?thesis
    by (simp add: iteration_events_def iteration_def create_events_def created_of_append)
qed

section \<open>Lemmas on the retry loop\<close>

lemma loop_unfold:
  "loop lib E output rd retry sleep i w =
     (if i < retry then
        (case iteration lib (E (nat i)) output rd retry sleep w of
           (Some err, w') \<Rightarrow> Println (error_string err) w'
         | (None, w') \<Rightarrow>
             loop lib E output rd retry sleep (i + 1) (time_Sleep (Duration_Second sleep) w'))
      else w)"
  by (subst loop.simps) (simp add: iteration_def split: prod.splits sum.splits option.splits)


lemma loop_first_failure:
  assumes "0 \<le> i" and "nat i \<le> k" and "k < nat retry"
    and "\<forall>j. nat i \<le> j \<and> j < k \<longrightarrow> iteration_outcome lib (E j) output rd retry sleep = None"
    and "iteration_outcome lib (E k) output rd retry sleep = Some err"
  shows "trace (loop lib E output rd retry sleep i w) =
           trace w @ concat (map (\<lambda>j. iteration_events lib (E j) output rd retry sleep @
                                      [EvSleep (Duration_Second sleep)]) [nat i..<k]) @
           iteration_events lib (E k) output rd retry sleep @ [EvPrint (error_string err)] \<and>
         dom (fs (loop lib E output rd retry sleep i w)) =
           dom (fs w) \<union> (\<Union>j\<in>{nat i..<Suc k}.
                             set (created_of (iteration_events lib (E j) output rd retry sleep)))"
  using assms
proof (induction "k - nat i" arbitrary: i w)
  case 0
  then have ik: "nat i = k" by simp
  with "0.prems" have lt: "i < retry" by linarith
  obtain r w' where it: "iteration lib (E (nat i)) output rd retry sleep w = (r, w')"
    by (cases "iteration lib (E (nat i)) output rd retry sleep w")
  with ik "0.prems"(5) iteration_facts [of lib "E (nat i)" "output" rd retry sleep w]
  have r: "r = Some err"
    and tr: "trace w' = trace w @ iteration_events lib (E k) output rd retry sleep"
    and dm: "dom (fs w') = dom (fs w) \<union>
               set (created_of (iteration_events lib (E k) output rd retry sleep))"
    by simp_all
  have step: "loop lib E output rd retry sleep i w = Println (error_string err) w'"
    using lt it r by (subst loop_unfold) simp
  from tr dm ik show ?case unfolding step by (simp add: Println_def)
next
  case (Suc n)
  then have ik: "nat i < k" by simp
  with Suc.prems have lt: "i < retry" by linarith
  obtain r w' where it: "iteration lib (E (nat i)) output rd retry sleep w = (r, w')"
    by (cases "iteration lib (E (nat i)) output rd retry sleep w")
  from Suc.prems(4) ik have "iteration_outcome lib (E (nat i)) output rd retry sleep = None" by simp
  with it iteration_facts [of lib "E (nat i)" "output" rd retry sleep w]
  have r: "r = None"
    and tr: "trace w' = trace w @ iteration_events lib (E (nat i)) output rd retry sleep"
    and dm: "dom (fs w') = dom (fs w) \<union>
               set (created_of (iteration_events lib (E (nat i)) output rd retry sleep))"
    by simp_all
  let ?w'' = "time_Sleep (Duration_Second sleep) w'"
  have step: "loop lib E output rd retry sleep i w = loop lib E output rd retry sleep (i + 1) ?w''"
    using lt it r by (subst loop_unfold) simp
  have nx: "nat (i + 1) = Suc (nat i)" using Suc.prems(1) by simp
  have n: "n = k - nat (i + 1)" using Suc.hyps(2) nx by simp
  have pos: "0 \<le> i + 1" using Suc.prems(1) by simp
  have le: "nat (i + 1) \<le> k" using ik nx by simp
  have ok': "\<forall>j. nat (i + 1) \<le> j \<and> j < k \<longrightarrow>
               iteration_outcome lib (E j) output rd retry sleep = None"
    using Suc.prems(4) nx by simp
  note IH = Suc.hyps(1) [OF n pos le Suc.prems(3) ok' Suc.prems(5), of ?w'']
  have lst: "[nat i..<k] = nat i # [Suc (nat i)..<k]"
    using ik by (simp add: upt_conv_Cons)
  have st: "{nat i..<Suc k} = insert (nat i) {Suc (nat i)..<Suc k}"
    using ik by auto
  from IH tr dm show ?case
    unfolding step nx lst st by (simp add: time_Sleep_def Un_assoc)
qed

lemma ok_iterations_events:
  assumes "\<forall>j\<in>set js. iteration_outcome lib (E j) output rd retry sleep = None"
  shows "created_of (concat (map (\<lambda>j. iteration_events lib (E j) output rd retry sleep @
                                       [EvSleep d]) js)) =
           map (\<lambda>j. report_name_of lib (E j) output rd retry sleep) js \<and>
         length (requests_of (concat (map (\<lambda>j. iteration_events lib (E j) output rd retry sleep @
                                       [EvSleep d]) js))) = length js"
  using assms
proof (induction js)
  case Nil
  then show ?case by simp
next
  case (Cons j js)
  then have "iteration_outcome lib (E j) output rd retry sleep = None" by simp
  from iteration_ok_events [OF this] obtain req resp where
    "response_of lib (E j) rd retry sleep = Some resp"
    "iteration_events lib (E j) output rd retry sleep =
       [EvDo req, EvCreate (report_name output (time_Now_Unix (E j)) (StatusCode resp))]"
    by blast
  with Cons show ?case
    by (simp add: created_of_append requests_of_append report_name_of_def)
qed

lemma main_loop:
  assumes "source \<noteq> []" and "output \<noteq> []" and "ReadHTTPFile os_Open source = Inr rd"
  shows "main os_Open lib E source output retry0 sleep w =
           loop lib E output rd (if retry0 = 0 then defaultRetry else retry0) sleep 0 w"
  using assms by (simp add: main_def Let_def defaultSleep_def)

section \<open>Lemmas on the example runs\<close>

lemma example_request_parses:
  "ReadHTTPFile (single_file ''req.http'' \<lparr>scan_lines = [''GET http://x/y''], scan_err = None\<rparr>)
     ''req.http''
   = Inr \<lparr>Method = ''GET'', URL = ''http://x/y'', Headers = Map.empty, Body = []\<rparr>"
  by (simp add: ReadHTTPFile_def single_file_def SplitN_2_def)

lemma quiet_iteration_outcome:
  "iteration_outcome plain_lib (quiet_iter [] unix (Inr ok_response)) output
     \<lparr>Method = ''GET'', URL = ''http://x/y'', Headers = Map.empty, Body = []\<rparr> retry sleep = None"
  by (simp add: iteration_outcome_def iteration_def SendRequest_def plain_lib_def quiet_iter_def
      GenerateReport_def os_Create_def WriteString_def range_map_def List.map_filter_def
      ok_response_def empty_world_def Let_def)

lemma quiet_iteration_events:
  "iteration_events plain_lib (quiet_iter [] unix (Inr ok_response)) output
     \<lparr>Method = ''GET'', URL = ''http://x/y'', Headers = Map.empty, Body = []\<rparr> retry sleep =
   [EvDo \<lparr>rq_method = ''GET'', rq_url = ''http://x/y'', rq_body = [], rq_header = Map.empty\<rparr>,
    EvCreate (report_name output unix 200)]"
  by (simp add: iteration_events_def iteration_def SendRequest_def plain_lib_def quiet_iter_def
      GenerateReport_def os_Create_def WriteString_def range_map_def List.map_filter_def
      ok_response_def empty_world_def Let_def file_append_def)

lemma quiet_report_name_of:
  "report_name_of plain_lib (quiet_iter [] unix (Inr ok_response)) output
     \<lparr>Method = ''GET'', URL = ''http://x/y'', Headers = Map.empty, Body = []\<rparr> retry sleep =
   report_name output unix 200"
  by (simp add: report_name_of_def response_of_def SendRequest_def plain_lib_def quiet_iter_def
      range_map_def List.map_filter_def ok_response_def empty_world_def Let_def)

lemma refused_iteration:
  "iteration_outcome plain_lib (quiet_iter [] unix (Inl msg)) output
     \<lparr>Method = ''GET'', URL = ''http://x/y'', Headers = Map.empty, Body = []\<rparr> retry sleep
     = Some (LibError msg)"
  "iteration_events plain_lib (quiet_iter [] unix (Inl msg)) output
     \<lparr>Method = ''GET'', URL = ''http://x/y'', Headers = Map.empty, Body = []\<rparr> retry sleep
     = [EvDo \<lparr>rq_method = ''GET'', rq_url = ''http://x/y'', rq_body = [], rq_header = Map.empty\<rparr>]"
  "response_of plain_lib (quiet_iter [] unix (Inl msg))
     \<lparr>Method = ''GET'', URL = ''http://x/y'', Headers = Map.empty, Body = []\<rparr> retry sleep = None"
  by (simp_all add: iteration_outcome_def iteration_events_def response_of_def iteration_def
      SendRequest_def plain_lib_def quiet_iter_def range_map_def List.map_filter_def
      empty_world_def Let_def)

lemma example_report_names:
  "report_name ''out'' 1700000000 200 = ''out|1700000000-status:200.txt''"
  "report_name ''out'' 1700000001 200 = ''out|1700000001-status:200.txt''"
  "report_name ''out'' 1700000002 200 = ''out|1700000002-status:200.txt''"
  by (simp_all add: report_name_def Sprint_int_def decimal.simps)

section \<open>The request executor\<close>

text \<open>
  C9. \<open>SendRequest\<close> does not depend on its arguments \<^verbatim>\<open>retryCount\<close> and \<^verbatim>\<open>sleepSec\<close>: for
  the same parsed request in the same environment, any two pairs of values give the same
  request handed to \<^verbatim>\<open>client.Do\<close> (it is recorded in the trace of the resulting world)
  and the same result.
\<close>

theorem SendRequest_ignores_retry_and_sleep:
  "SendRequest lib ie reqData retryCount sleepSec w =
   SendRequest lib ie reqData retryCount' sleepSec' w"
  by (simp add: SendRequest_def)

section \<open>The report writer\<close>

text \<open>
  C5. Whenever \<open>GenerateReport\<close> succeeds, the response body could be drained and the report
  file holds, after the method, URL and header lines, the section \<^verbatim>\<open>Request Body:\<close> with
  exactly the parsed body, and then the status line and the section \<^verbatim>\<open>Response Body:\<close> with
  exactly the drained response body. It does succeed when the file can be created, no write
  fails and the response body can be read.
\<close>

theorem report_round_trip:
  "(\<forall>w'. GenerateReport ie output reqData response w = (None, w') \<longrightarrow>
      (\<exists>responseBody. ReadAll_Body response = Inr responseBody \<and>
         fs w' (report_name output (time_Now_Unix ie) (StatusCode response)) =
           Some (''Request Method: '' @ Method reqData @ ''\<newline>Request URL: '' @ URL reqData @
                 ''\<newline>\<newline>'' @ ''Request Headers:\<newline>'' @
                 concat (map (\<lambda>(k, v). k @ '': '' @ v @ ''\<newline>'')
                           (range_map (report_range ie) (Headers reqData))) @
                 ''\<newline>Request Body:\<newline>'' @ Body reqData @ ''\<newline>\<newline>'' @
                 ''Response Status: '' @ Status response @ ''\<newline>Response Body:\<newline>'' @
                 responseBody @ ''\<newline>''))) \<and>
   (os_Create_err ie = None \<and> write_fault ie = None \<and> (\<exists>b. ReadAll_Body response = Inr b) \<longrightarrow>
      fst (GenerateReport ie output reqData response w) = None)"
  using GenerateReport_content [of ie "output" reqData response w]
    GenerateReport_no_fault [of ie response _ "output" reqData w]
  by blast

text \<open>A request with one header and a body of two lines, answered with \<^verbatim>\<open>200 OK\<close>.\<close>

theorem report_round_trip_witness:
  "fst (GenerateReport (quiet_iter [''A''] 1700000000 (Inr ok_response)) ''out''
          \<lparr>Method = ''POST'', URL = ''http://x/y'', Headers = [''A'' \<mapsto> ''1''],
           Body = ''hello\<newline>world''\<rparr> ok_response empty_world) = None \<and>
   fs (snd (GenerateReport (quiet_iter [''A''] 1700000000 (Inr ok_response)) ''out''
          \<lparr>Method = ''POST'', URL = ''http://x/y'', Headers = [''A'' \<mapsto> ''1''],
           Body = ''hello\<newline>world''\<rparr> ok_response empty_world))
      ''out|1700000000-status:200.txt'' =
     Some ''Request Method: POST\<newline>Request URL: http://x/y\<newline>\<newline>Request Headers:\<newline>A: 1\<newline>\<newline>Request Body:\<newline>hello\<newline>world\<newline>\<newline>Response Status: 200 OK\<newline>Response Body:\<newline>pong\<newline>''"
proof -
  let ?ie = "quiet_iter [''A''] 1700000000 (Inr ok_response)"
  let ?rd = "\<lparr>Method = ''POST'', URL = ''http://x/y'', Headers = [''A'' \<mapsto> ''1''],
      Body = ''hello\<newline>world''\<rparr>"
  let ?g = "GenerateReport ?ie ''out'' ?rd ok_response empty_world"
  note rt = report_round_trip [of ?ie "''out''" ?rd ok_response empty_world]
  have nm: "report_name ''out'' 1700000000 200 = ''out|1700000000-status:200.txt''"
    by (simp add: report_name_def Sprint_int_def decimal.simps)
  have a: "os_Create_err ?ie = None \<and> write_fault ?ie = None \<and>
           (\<exists>b. ReadAll_Body ok_response = Inr b)"
    by (simp add: quiet_iter_def ok_response_def)
  with rt have f: "fst ?g = None" by blast
  then have g: "?g = (None, snd ?g)" by (metis prod.collapse)
  with rt obtain b where "ReadAll_Body ok_response = Inr b"
    and "fs (snd ?g) (report_name ''out'' (time_Now_Unix ?ie) (StatusCode ok_response)) =
           Some (''Request Method: '' @ Method ?rd @ ''\<newline>Request URL: '' @ URL ?rd @
                 ''\<newline>\<newline>'' @ ''Request Headers:\<newline>'' @
                 concat (map (\<lambda>(k, v). k @ '': '' @ v @ ''\<newline>'')
                           (range_map (report_range ?ie) (Headers ?rd))) @
                 ''\<newline>Request Body:\<newline>'' @ Body ?rd @ ''\<newline>\<newline>'' @
                 ''Response Status: '' @ Status ok_response @ ''\<newline>Response Body:\<newline>'' @
                 b @ ''\<newline>'')"
    by blast
  with f nm show ?thesis
    by (simp add: quiet_iter_def ok_response_def range_map_def List.map_filter_def)
qed

section \<open>The driver\<close>

text \<open>
  C4. A run with \<^verbatim>\<open>-retry=0\<close> and \<^verbatim>\<open>-sleep=0\<close> is the run with \<^verbatim>\<open>-retry=1\<close> and
  \<^verbatim>\<open>-sleep=0\<close>: from the same world both end in the same world. The zero values are
  replaced by the defaults before the loop starts: when both paths are given and the source
  parses, either run is the retry loop with retry count 1 and sleep 0 started at counter 0,
  which is one iteration, followed by the print of its error or by a sleep of length 0.
\<close>

theorem zero_flags_take_defaults:
  "main os_Open lib E source output 0 0 w = main os_Open lib E source output 1 0 w \<and>
   (source \<noteq> [] \<and> output \<noteq> [] \<and> ReadHTTPFile os_Open source = Inr rd \<longrightarrow>
      main os_Open lib E source output 0 0 w = loop lib E output rd 1 0 0 w \<and>
      main os_Open lib E source output 1 0 w = loop lib E output rd 1 0 0 w \<and>
      loop lib E output rd 1 0 0 w =
        (case iteration lib (E 0) output rd 1 0 w of
           (Some err, w') \<Rightarrow> Println (error_string err) w'
         | (None, w') \<Rightarrow> time_Sleep 0 w'))"
proof -
  have eq: "main os_Open lib E source output 0 0 w = main os_Open lib E source output 1 0 w"
    by (simp add: main_def defaultRetry_def defaultSleep_def)
  have once: "loop lib E output rd 1 0 0 w =
        (case iteration lib (E 0) output rd 1 0 w of
           (Some err, w') \<Rightarrow> Println (error_string err) w'
         | (None, w') \<Rightarrow> time_Sleep 0 w')"
  proof -
    have stop: "loop lib E output rd 1 0 1 v = v" for v
      by (subst loop_unfold) simp
    show ?thesis
      by (subst loop_unfold)
        (simp add: stop Duration_Second_def split: prod.splits option.splits)
  qed
  have run: "main os_Open lib E source output 0 0 w = loop lib E output rd 1 0 0 w"
    if "source \<noteq> []" "output \<noteq> []" "ReadHTTPFile os_Open source = Inr rd"
    using that by (simp add: main_def defaultRetry_def defaultSleep_def)
  from eq once run show ?thesis by simp
qed

text \<open>
  The run with both flags 0 against a server that answers: one request, one report, one
  sleep of length 0.
\<close>

theorem zero_flags_take_defaults_witness:
  "trace (main
      (single_file ''req.http'' \<lparr>scan_lines = [''GET http://x/y''], scan_err = None\<rparr>)
      plain_lib (every_iteration (quiet_iter [] 1700000000 (Inr ok_response)))
      ''req.http'' ''out'' 0 0 empty_world) =
     [EvDo \<lparr>rq_method = ''GET'', rq_url = ''http://x/y'', rq_body = [], rq_header = Map.empty\<rparr>,
      EvCreate ''out|1700000000-status:200.txt'',
      EvSleep 0] \<and>
   main
      (single_file ''req.http'' \<lparr>scan_lines = [''GET http://x/y''], scan_err = None\<rparr>)
      plain_lib (every_iteration (quiet_iter [] 1700000000 (Inr ok_response)))
      ''req.http'' ''out'' 1 0 empty_world =
   main
      (single_file ''req.http'' \<lparr>scan_lines = [''GET http://x/y''], scan_err = None\<rparr>)
      plain_lib (every_iteration (quiet_iter [] 1700000000 (Inr ok_response)))
      ''req.http'' ''out'' 0 0 empty_world"
proof -
  let ?F = "single_file ''req.http'' \<lparr>scan_lines = [''GET http://x/y''], scan_err = None\<rparr>"
  let ?rd = "\<lparr>Method = ''GET'', URL = ''http://x/y'', Headers = Map.empty, Body = []\<rparr>"
  let ?ie = "quiet_iter [] 1700000000 (Inr ok_response)"
  let ?E = "every_iteration ?ie"
  have h: "''req.http'' \<noteq> [] \<and> ''out'' \<noteq> [] \<and> ReadHTTPFile ?F ''req.http'' = Inr ?rd"
    using example_request_parses by simp
  obtain r w' where it: "iteration plain_lib ?ie ''out'' ?rd 1 0 empty_world = (r, w')"
    by (cases "iteration plain_lib ?ie ''out'' ?rd 1 0 empty_world")
  with iteration_facts [of plain_lib ?ie "''out''" ?rd 1 0 empty_world]
  have r: "r = None"
    and tr: "trace w' =
               [EvDo \<lparr>rq_method = ''GET'', rq_url = ''http://x/y'', rq_body = [],
                      rq_header = Map.empty\<rparr>,
                EvCreate ''out|1700000000-status:200.txt'']"
    by (simp_all add: quiet_iteration_outcome quiet_iteration_events example_report_names
        empty_world_def)
  from zero_flags_take_defaults [of ?F plain_lib ?E "''req.http''" "''out''" empty_world ?rd] h
  show ?thesis
    by (simp add: every_iteration_def it r tr time_Sleep_def)
qed




text \<open>
  C2, amended. When parsing succeeds, the iterations before iteration \<open>k\<close> succeed and
  iteration \<open>k\<close> fails, the run consists of the events of the iterations before \<open>k\<close>, each
  followed by its sleep, the events of iteration \<open>k\<close>, and the printed error, and of nothing
  else: no later iteration is executed, and \<^verbatim>\<open>client.Do\<close> is called at most \<open>k + 1\<close> times. When
  the failure is that of the request, or that of creating the report file, no report file is
  created in iteration \<open>k\<close>: the files created are those of the iterations before \<open>k\<close>. When
  the report fails after its file was created, that file is among the files the run leaves.
\<close>

theorem abort_on_first_failure:
  assumes "source \<noteq> []" and "output \<noteq> []" and "ReadHTTPFile os_Open source = Inr rd"
    and "retry = (if retry0 = 0 then defaultRetry else retry0)"
    and "k < nat retry"
    and "\<forall>j<k. iteration_outcome lib (E j) output rd retry sleep = None"
    and "iteration_outcome lib (E k) output rd retry sleep = Some err"
  shows "trace (main os_Open lib E source output retry0 sleep w) =
           trace w @
           concat (map (\<lambda>j. iteration_events lib (E j) output rd retry sleep @
                             [EvSleep (Duration_Second sleep)]) [0..<k]) @
           iteration_events lib (E k) output rd retry sleep @ [EvPrint (error_string err)] \<and>
         length (requests_of (trace (main os_Open lib E source output retry0 sleep w))) \<le>
           length (requests_of (trace w)) + k + 1 \<and>
         (response_of lib (E k) rd retry sleep = None \<or> os_Create_err (E k) \<noteq> None \<longrightarrow>
            created_of (trace (main os_Open lib E source output retry0 sleep w)) =
              created_of (trace w) @
              map (\<lambda>j. report_name_of lib (E j) output rd retry sleep) [0..<k] \<and>
            dom (fs (main os_Open lib E source output retry0 sleep w)) =
              dom (fs w) \<union> (\<lambda>j. report_name_of lib (E j) output rd retry sleep) ` {0..<k}) \<and>
         (\<forall>resp. response_of lib (E k) rd retry sleep = Some resp \<and> os_Create_err (E k) = None \<longrightarrow>
            report_name output (time_Now_Unix (E k)) (StatusCode resp)
              \<in> dom (fs (main os_Open lib E source output retry0 sleep w)))"
proof -
  let ?run = "main os_Open lib E source output retry0 sleep w"
  let ?evs = "\<lambda>j. iteration_events lib (E j) output rd retry sleep"
  have run: "?run = loop lib E output rd retry sleep 0 w"
    using assms(1-4) by (simp add: main_loop)
  have ok: "\<forall>j. nat 0 \<le> j \<and> j < k \<longrightarrow>
              iteration_outcome lib (E j) output rd retry sleep = None"
    using assms(6) by simp
  from loop_first_failure [OF _ _ assms(5) ok assms(7), of w]
  have tr: "trace ?run = trace w @
              concat (map (\<lambda>j. ?evs j @ [EvSleep (Duration_Second sleep)]) [0..<k]) @
              ?evs k @ [EvPrint (error_string err)]"
    and dm: "dom (fs ?run) = dom (fs w) \<union> (\<Union>j\<in>{0..<Suc k}. set (created_of (?evs j)))"
    unfolding run by simp_all
  have all: "\<forall>j\<in>set [0..<k]. iteration_outcome lib (E j) output rd retry sleep = None"
    using assms(6) by simp
  note ev = ok_iterations_events [OF all, of "Duration_Second sleep"]
  note bd = iteration_events_bounds [of lib "E k" "output" rd retry sleep]
  have one: "set (created_of (?evs j)) = {report_name_of lib (E j) output rd retry sleep}"
    if "j < k" for j
  proof -
    from that assms(6) have "iteration_outcome lib (E j) output rd retry sleep = None" by simp
    from iteration_ok_events [OF this] show ?thesis
      by (auto simp: report_name_of_def)
  qed
  have un: "(\<Union>j\<in>{0..<k}. set (created_of (?evs j))) =
          (\<lambda>j. report_name_of lib (E j) output rd retry sleep) ` {0..<k}"
    using one by auto
  have split: "{0..<Suc k} = insert k {0..<k}" by auto
  have req: "length (requests_of (trace ?run)) \<le> length (requests_of (trace w)) + k + 1"
    using tr ev bd by (simp add: requests_of_append)
  have none: "created_of (trace ?run) =
                created_of (trace w) @
                map (\<lambda>j. report_name_of lib (E j) output rd retry sleep) [0..<k] \<and>
              dom (fs ?run) =
                dom (fs w) \<union> (\<lambda>j. report_name_of lib (E j) output rd retry sleep) ` {0..<k}"
    if "created_of (?evs k) = []"
    using that tr dm ev un unfolding split by (simp add: created_of_append)
  have stays: "report_name output (time_Now_Unix (E k)) (StatusCode resp) \<in> dom (fs ?run)"
    if "response_of lib (E k) rd retry sleep = Some resp" "os_Create_err (E k) = None" for resp
    using iteration_events_created [OF that, of "output"] dm unfolding split by simp
  from tr req none bd stays show ?thesis by blast
qed

text \<open>The connection is refused in the second of five iterations.\<close>

theorem abort_on_first_failure_witness:
  "trace (main
      (single_file ''req.http'' \<lparr>scan_lines = [''GET http://x/y''], scan_err = None\<rparr>)
      plain_lib
      (differing_at 1 (quiet_iter [] 1700000001 (Inl ''dial tcp: connection refused''))
         (quiet_iter [] 1700000000 (Inr ok_response)))
      ''req.http'' ''out'' 5 0 empty_world) =
     [EvDo \<lparr>rq_method = ''GET'', rq_url = ''http://x/y'', rq_body = [], rq_header = Map.empty\<rparr>,
      EvCreate ''out|1700000000-status:200.txt'',
      EvSleep 0,
      EvDo \<lparr>rq_method = ''GET'', rq_url = ''http://x/y'', rq_body = [], rq_header = Map.empty\<rparr>,
      EvPrint ''dial tcp: connection refused''] \<and>
   dom (fs (main
      (single_file ''req.http'' \<lparr>scan_lines = [''GET http://x/y''], scan_err = None\<rparr>)
      plain_lib
      (differing_at 1 (quiet_iter [] 1700000001 (Inl ''dial tcp: connection refused''))
         (quiet_iter [] 1700000000 (Inr ok_response)))
      ''req.http'' ''out'' 5 0 empty_world)) = {''out|1700000000-status:200.txt''}"
proof -
  let ?F = "single_file ''req.http'' \<lparr>scan_lines = [''GET http://x/y''], scan_err = None\<rparr>"
  let ?rd = "\<lparr>Method = ''GET'', URL = ''http://x/y'', Headers = Map.empty, Body = []\<rparr>"
  let ?E = "differing_at 1 (quiet_iter [] 1700000001 (Inl ''dial tcp: connection refused''))
              (quiet_iter [] 1700000000 (Inr ok_response))"
  have h1: "''req.http'' \<noteq> []" and h2: "''out'' \<noteq> []" by simp_all
  have h4: "(5::int) = (if (5::int) = 0 then defaultRetry else 5)" by simp
  have h5: "(1::nat) < nat 5" by simp
  have h6: "\<forall>j<1. iteration_outcome plain_lib (?E j) ''out'' ?rd 5 0 = None"
    by (simp add: differing_at_def quiet_iteration_outcome)
  have h7: "iteration_outcome plain_lib (?E 1) ''out'' ?rd 5 0 =
              Some (LibError ''dial tcp: connection refused'')"
    by (simp add: differing_at_def refused_iteration)
  have up: "[0..<1] = [0::nat]" "{0..<1} = {0::nat}" by auto
  from abort_on_first_failure [of "''req.http''" "''out''" ?F ?rd 5 5 1 plain_lib ?E 0
      "LibError ''dial tcp: connection refused''" empty_world,
      OF h1 h2 example_request_parses h4 h5 h6 h7]
  show ?thesis
    unfolding up
    by (simp add: differing_at_def quiet_iteration_events quiet_report_name_of refused_iteration
        example_report_names empty_world_def Duration_Second_def)
qed

text \<open>
  A report write that fails after the file was created leaves a report file for the failing
  iteration: here the second \<^verbatim>\<open>WriteString\<close> of the first iteration fails.
\<close>

theorem partial_report_counterexample:
  "main
     (single_file ''req.http'' \<lparr>scan_lines = [''GET http://x/y''], scan_err = None\<rparr>)
     plain_lib
     (every_iteration
        ((quiet_iter [] 1700000000 (Inr ok_response))
           \<lparr>write_fault := Some (1, 0, ''write: no space left on device'')\<rparr>))
     ''req.http'' ''out'' 2 0 empty_world =
   \<lparr>fs = [''out|1700000000-status:200.txt'' \<mapsto>
            ''Request Method: GET\<newline>Request URL: http://x/y\<newline>\<newline>''],
    trace =
      [EvDo \<lparr>rq_method = ''GET'', rq_url = ''http://x/y'', rq_body = [], rq_header = Map.empty\<rparr>,
       EvCreate ''out|1700000000-status:200.txt'',
       EvPrint ''write: no space left on device'']\<rparr>"
proof -
  let ?F = "single_file ''req.http'' \<lparr>scan_lines = [''GET http://x/y''], scan_err = None\<rparr>"
  let ?rd = "\<lparr>Method = ''GET'', URL = ''http://x/y'', Headers = Map.empty, Body = []\<rparr>"
  let ?E = "every_iteration
        ((quiet_iter [] 1700000000 (Inr ok_response))
           \<lparr>write_fault := Some (1, 0, ''write: no space left on device'')\<rparr>)"
  have run: "main ?F plain_lib ?E ''req.http'' ''out'' 2 0 empty_world =
               loop plain_lib ?E ''out'' ?rd 2 0 0 empty_world"
    using main_loop [of "''req.http''" "''out''" ?F ?rd plain_lib ?E 2 0 empty_world]
      example_request_parses by simp
  show ?thesis
    unfolding run
    by (subst loop.simps)
      (simp add: every_iteration_def SendRequest_def plain_lib_def quiet_iter_def
        GenerateReport_def os_Create_def WriteString_def range_map_def List.map_filter_def
        ok_response_def empty_world_def Let_def file_append_def Println_def example_report_names)
qed

end
